theory Spec2Isabelle
  imports Main "HOL-Library.Word"
begin

section \<open>The native capability: OpenGL calls as a trace\<close>

text \<open>
  \<^verbatim>\<open>gl::u32\<close> is \<^verbatim>\<open>GLuint\<close> and \<^verbatim>\<open>gl::e32\<close> is \<^verbatim>\<open>GLenum\<close> (opengl.hpp), both
  unsigned 32-bit integers.
\<close>

type_synonym u32 = "32 word"
type_synonym e32 = "32 word"

text \<open>
  The wrappers of opengl.hpp forward to the OpenGL driver. The model records each call
  the handle wrappers make, in order. What an allocating call returns is decided by the
  driver: it is a parameter \<open>drv\<close>, a function of the calls made so far.
\<close>

datatype gl_call =
    Generate_buffer
  | Delete_buffer u32
  | Bind_buffer e32 u32
  | Generate_vertex_array
  | Delete_vertex_array u32
  | Create_program
  | Delete_program u32
  | Get_uniform_location u32 string

type_synonym gl_trace = "gl_call list"
type_synonym driver = "gl_trace \<Rightarrow> u32"

definition generate_buffer :: "driver \<Rightarrow> gl_trace \<Rightarrow> u32 \<times> gl_trace" where
  "generate_buffer drv tr = (drv tr, tr @ [Generate_buffer])"

definition delete_buffer :: "u32 \<Rightarrow> gl_trace \<Rightarrow> gl_trace" where
  "delete_buffer b tr = tr @ [Delete_buffer b]"

definition bind_buffer :: "e32 \<Rightarrow> u32 \<Rightarrow> gl_trace \<Rightarrow> gl_trace" where
  "bind_buffer target b tr = tr @ [Bind_buffer target b]"

definition generate_vertex_array :: "driver \<Rightarrow> gl_trace \<Rightarrow> u32 \<times> gl_trace" where
  "generate_vertex_array drv tr = (drv tr, tr @ [Generate_vertex_array])"

definition delete_vertex_array :: "u32 \<Rightarrow> gl_trace \<Rightarrow> gl_trace" where
  "delete_vertex_array v tr = tr @ [Delete_vertex_array v]"

definition create_program :: "driver \<Rightarrow> gl_trace \<Rightarrow> u32 \<times> gl_trace" where
  "create_program drv tr = (drv tr, tr @ [Create_program])"

definition delete_program :: "u32 \<Rightarrow> gl_trace \<Rightarrow> gl_trace" where
  "delete_program p tr = tr @ [Delete_program p]"

definition get_uniform_location :: "driver \<Rightarrow> u32 \<Rightarrow> string \<Rightarrow> gl_trace \<Rightarrow> u32 \<times> gl_trace" where
  "get_uniform_location drv p name tr = (drv tr, tr @ [Get_uniform_location p name])"

text \<open>The two buffer targets, with OpenGL's values (from the OpenGL headers).\<close>

definition GL_ARRAY_BUFFER :: e32 where
  "GL_ARRAY_BUFFER = 0x8892"

definition GL_ELEMENT_ARRAY_BUFFER :: e32 where
  "GL_ELEMENT_ARRAY_BUFFER = 0x8893"

definition k_uniform_model_name :: string where
  "k_uniform_model_name = ''model''"

definition k_uniform_view_name :: string where
  "k_uniform_view_name = ''view''"

definition k_uniform_projection_name :: string where
  "k_uniform_projection_name = ''projection''"


section \<open>Handle wrappers\<close>

text \<open>
  Each class is a record of its data members. \<^verbatim>\<open>m_object\<close> and \<^verbatim>\<open>m_owning\<close> occur in
  several classes, so these two carry the class as a suffix. A member function takes the
  object and the trace and returns both updated; a move takes the source as well and
  returns it as the move left it.
\<close>

subsection \<open>class buffer\<close>

text \<open>The member \<^verbatim>\<open>m_type\<close> is declared \<^verbatim>\<open>bool m_type = GL_ARRAY_BUFFER;\<close>.\<close>

record buffer =
  m_object_buffer :: u32
  m_type :: bool
  m_owning_buffer :: bool

text \<open>
  \<^verbatim>\<open>buffer(gl::e32 type = GL_ARRAY_BUFFER)\<close>: the initialiser generates a buffer object and
  the body generates a second one, which replaces the first. Storing \<open>type\<close> in a
  \<^verbatim>\<open>bool\<close> keeps whether it is nonzero.
\<close>

definition buffer_new :: "driver \<Rightarrow> e32 \<Rightarrow> gl_trace \<Rightarrow> buffer \<times> gl_trace" where
  "buffer_new drv type tr =
     (let (o1, tr1) = generate_buffer drv tr;
          (o2, tr2) = generate_buffer drv tr1
      in (\<lparr>m_object_buffer = o2, m_type = (type \<noteq> 0), m_owning_buffer = True\<rparr>, tr2))"

text \<open>\<^verbatim>\<open>buffer(gl::u32 object, gl::e32 type, bool owning = true)\<close>\<close>

definition buffer_wrap :: "driver \<Rightarrow> u32 \<Rightarrow> e32 \<Rightarrow> bool \<Rightarrow> gl_trace \<Rightarrow> buffer \<times> gl_trace" where
  "buffer_wrap drv object type owning tr =
     (let (obj, tr1) = (if object = 0 then generate_buffer drv tr else (object, tr))
      in (\<lparr>m_object_buffer = obj, m_type = (type \<noteq> 0),
           m_owning_buffer = (owning \<or> object = 0)\<rparr>, tr1))"

text \<open>\<^verbatim>\<open>buffer(buffer&& other)\<close>: the result is (the new object, \<open>other\<close> afterwards).\<close>

definition buffer_move :: "buffer \<Rightarrow> buffer \<times> buffer" where
  "buffer_move other =
     (\<lparr>m_object_buffer = m_object_buffer other, m_type = m_type other,
       m_owning_buffer = m_owning_buffer other\<rparr>,
      other\<lparr>m_owning_buffer := False\<rparr>)"

text \<open>\<^verbatim>\<open>buffer& operator =(buffer&& other)\<close>: the result is (this, other, trace).\<close>

definition buffer_move_assign :: "buffer \<Rightarrow> buffer \<Rightarrow> gl_trace \<Rightarrow> buffer \<times> buffer \<times> gl_trace" where
  "buffer_move_assign this other tr =
     (if m_object_buffer this = m_object_buffer other then (this, other, tr)
      else
        let tr1 = (if m_owning_buffer this then delete_buffer (m_object_buffer this) tr else tr)
        in (this\<lparr>m_object_buffer := m_object_buffer other, m_type := m_type other,
                 m_owning_buffer := m_owning_buffer other\<rparr>,
            other\<lparr>m_owning_buffer := False\<rparr>, tr1))"

definition buffer_clear :: "buffer \<Rightarrow> gl_trace \<Rightarrow> buffer \<times> gl_trace" where
  "buffer_clear this tr =
     (if m_owning_buffer this
      then (this\<lparr>m_owning_buffer := False\<rparr>, delete_buffer (m_object_buffer this) tr)
      else (this, tr))"

text \<open>\<^verbatim>\<open>~buffer()\<close> calls \<^verbatim>\<open>clear()\<close>; the object is gone afterwards.\<close>

definition buffer_destroy :: "buffer \<Rightarrow> gl_trace \<Rightarrow> gl_trace" where
  "buffer_destroy this tr = snd (buffer_clear this tr)"

text \<open>
  \<^verbatim>\<open>bind()\<close> passes \<^verbatim>\<open>m_type\<close> where \<^verbatim>\<open>gl::bind_buffer\<close> takes a \<^verbatim>\<open>gl::e32\<close>: a
  \<^verbatim>\<open>bool\<close> converts to 1 or 0.
\<close>

definition buffer_target :: "buffer \<Rightarrow> e32" where
  "buffer_target this = (if m_type this then 1 else 0)"

definition buffer_bind :: "buffer \<Rightarrow> gl_trace \<Rightarrow> gl_trace" where
  "buffer_bind this tr = bind_buffer (buffer_target this) (m_object_buffer this) tr"




subsection \<open>class vertex_array\<close>

record vertex_array =
  m_object_vao :: u32
  m_owning_vao :: bool

text \<open>\<^verbatim>\<open>vertex_array()\<close>\<close>

definition vertex_array_new :: "driver \<Rightarrow> gl_trace \<Rightarrow> vertex_array \<times> gl_trace" where
  "vertex_array_new drv tr =
     (let (obj, tr1) = generate_vertex_array drv tr
      in (\<lparr>m_object_vao = obj, m_owning_vao = True\<rparr>, tr1))"

text \<open>\<^verbatim>\<open>vertex_array(gl::u32 object, bool owning = true)\<close>\<close>

definition vertex_array_wrap :: "driver \<Rightarrow> u32 \<Rightarrow> bool \<Rightarrow> gl_trace \<Rightarrow> vertex_array \<times> gl_trace" where
  "vertex_array_wrap drv object owning tr =
     (let (obj, tr1) = (if object = 0 then generate_vertex_array drv tr else (object, tr))
      in (\<lparr>m_object_vao = obj, m_owning_vao = (owning \<or> object = 0)\<rparr>, tr1))"

definition vertex_array_move :: "vertex_array \<Rightarrow> vertex_array \<times> vertex_array" where
  "vertex_array_move other =
     (\<lparr>m_object_vao = m_object_vao other, m_owning_vao = m_owning_vao other\<rparr>,
      other\<lparr>m_owning_vao := False\<rparr>)"

definition vertex_array_move_assign ::
  "vertex_array \<Rightarrow> vertex_array \<Rightarrow> gl_trace \<Rightarrow> vertex_array \<times> vertex_array \<times> gl_trace" where
  "vertex_array_move_assign this other tr =
     (if m_object_vao this = m_object_vao other then (this, other, tr)
      else
        let tr1 = (if m_owning_vao this then delete_vertex_array (m_object_vao this) tr else tr)
        in (this\<lparr>m_object_vao := m_object_vao other, m_owning_vao := m_owning_vao other\<rparr>,
            other\<lparr>m_owning_vao := False\<rparr>, tr1))"

definition vertex_array_clear :: "vertex_array \<Rightarrow> gl_trace \<Rightarrow> vertex_array \<times> gl_trace" where
  "vertex_array_clear this tr =
     (if m_owning_vao this
      then (this\<lparr>m_owning_vao := False\<rparr>, delete_vertex_array (m_object_vao this) tr)
      else (this, tr))"

definition vertex_array_destroy :: "vertex_array \<Rightarrow> gl_trace \<Rightarrow> gl_trace" where
  "vertex_array_destroy this tr = snd (vertex_array_clear this tr)"




subsection \<open>class shader\<close>

text \<open>The two paths are \<^verbatim>\<open>char const*\<close>, null by default.\<close>

record shader =
  m_vertex_shader_path :: "string option"
  m_fragment_shader_path :: "string option"
  m_program :: u32
  m_uniform_model :: u32
  m_uniform_view :: u32
  m_uniform_projection :: u32
  m_owning_shader :: bool

text \<open>\<^verbatim>\<open>shader() = default\<close>: the default member initialisers.\<close>

definition shader_default :: shader where
  "shader_default =
     \<lparr>m_vertex_shader_path = None, m_fragment_shader_path = None, m_program = 0,
      m_uniform_model = 0, m_uniform_view = 0, m_uniform_projection = 0,
      m_owning_shader = True\<rparr>"

text \<open>
  \<^verbatim>\<open>shader(gl::u32 program, gl::u32 uniform_model, gl::u32 uniform_view,
         gl::u32 uniform_projection, bool owning = true)\<close>.
  The members are initialised in the order of their declaration; \<^verbatim>\<open>m_owning\<close> is
  initialised with \<open>owning\<close>, and the body sets it to false when
  \<^verbatim>\<open>program != 0 && !owning\<close>.
\<close>

definition shader_wrap ::
  "driver \<Rightarrow> u32 \<Rightarrow> u32 \<Rightarrow> u32 \<Rightarrow> u32 \<Rightarrow> bool \<Rightarrow> gl_trace \<Rightarrow> shader \<times> gl_trace" where
  "shader_wrap drv program uniform_model uniform_view uniform_projection owning tr =
     (let (prog, tr1) = (if program = 0 then create_program drv tr else (program, tr));
          (um, tr2) = (if uniform_model = 0
                       then get_uniform_location drv prog k_uniform_model_name tr1
                       else (uniform_model, tr1));
          (uv, tr3) = (if uniform_view = 0
                       then get_uniform_location drv prog k_uniform_view_name tr2
                       else (uniform_view, tr2));
          (up, tr4) = (if uniform_projection = 0
                       then get_uniform_location drv prog k_uniform_projection_name tr3
                       else (uniform_projection, tr3));
          own = owning;
          own' = (if program \<noteq> 0 \<and> \<not> owning then False else own)
      in (\<lparr>m_vertex_shader_path = None, m_fragment_shader_path = None, m_program = prog,
           m_uniform_model = um, m_uniform_view = uv, m_uniform_projection = up,
           m_owning_shader = own'\<rparr>, tr4))"

text \<open>\<^verbatim>\<open>shader(shader&& other)\<close>\<close>

definition shader_move :: "shader \<Rightarrow> shader \<times> shader" where
  "shader_move other =
     (\<lparr>m_vertex_shader_path = m_vertex_shader_path other,
       m_fragment_shader_path = m_fragment_shader_path other,
       m_program = m_program other,
       m_uniform_model = m_uniform_model other,
       m_uniform_view = m_uniform_view other,
       m_uniform_projection = m_uniform_projection other,
       m_owning_shader = m_owning_shader other\<rparr>,
      other\<lparr>m_owning_shader := False\<rparr>)"

text \<open>
  \<^verbatim>\<open>shader& operator =(shader&& other)\<close>: the current program is deleted when it is
  nonzero; the program and the three uniforms are taken from \<open>other\<close>; \<^verbatim>\<open>m_owning\<close> of
  \<open>this\<close> and the two paths are not assigned.
\<close>

definition shader_move_assign :: "shader \<Rightarrow> shader \<Rightarrow> gl_trace \<Rightarrow> shader \<times> shader \<times> gl_trace" where
  "shader_move_assign this other tr =
     (if m_program this = m_program other then (this, other, tr)
      else
        let tr1 = (if m_program this \<noteq> 0 then delete_program (m_program this) tr else tr)
        in (this\<lparr>m_program := m_program other,
                 m_uniform_model := m_uniform_model other,
                 m_uniform_view := m_uniform_view other,
                 m_uniform_projection := m_uniform_projection other\<rparr>,
            other\<lparr>m_owning_shader := False\<rparr>, tr1))"

text \<open>\<^verbatim>\<open>~shader()\<close>\<close>

definition shader_destroy :: "shader \<Rightarrow> gl_trace \<Rightarrow> gl_trace" where
  "shader_destroy this tr =
     (if m_owning_shader this then delete_program (m_program this) tr else tr)"

definition shader_clear :: "shader \<Rightarrow> gl_trace \<Rightarrow> shader \<times> gl_trace" where
  "shader_clear this tr =
     (let (s1, tr1) =
            (if m_program this \<noteq> 0 \<and> m_owning_shader this
             then (this\<lparr>m_owning_shader := False\<rparr>, delete_program (m_program this) tr)
             else (this, tr))
      in (s1\<lparr>m_program := 0, m_uniform_model := 0, m_uniform_projection := 0,
              m_uniform_view := 0\<rparr>, tr1))"




subsection \<open>class texture\<close>

text \<open>
  The one resource class of the header that can be copied: it declares no constructor,
  destructor or assignment, so the implicit ones copy the two members.
  \<^verbatim>\<open>texture()\<close> with empty parentheses zero-initialises \<^verbatim>\<open>m_texture\<close>.
\<close>

record texture =
  m_texture :: u32
  m_initialized :: bool

definition texture_default :: texture where
  "texture_default = \<lparr>m_texture = 0, m_initialized = False\<rparr>"


section \<open>The name generator\<close>

text \<open>
  \<^verbatim>\<open>ss << counter\<close> writes a \<^verbatim>\<open>gl::i32\<close> in decimal. The counters are modelled as
  unbounded integers: they start at 0 and only grow, and overflowing a signed integer is
  undefined in the source. The model is the source as long as a counter stays at or below
  2147483647, the largest \<^verbatim>\<open>gl::i32\<close>.
\<close>

definition digit_char :: "nat \<Rightarrow> char" where
  "digit_char d = ''0123456789'' ! d"

fun string_of_nat :: "nat \<Rightarrow> string" where
  "string_of_nat n =
     (if n < 10 then [digit_char n]
      else string_of_nat (n div 10) @ [digit_char (n mod 10)])"

declare string_of_nat.simps [simp del]

definition string_of_int :: "int \<Rightarrow> string" where
  "string_of_int i =
     (if i < 0 then CHR ''-'' # string_of_nat (nat (- i)) else string_of_nat (nat i))"

text \<open>
  The loop of \<^verbatim>\<open>states::next_name\<close>:
  \<^verbatim>\<open>
    auto ss = std::stringstream();
    while (true) {
        ss << hint << prefix << counter++;
        auto name = ss.str();
        if (!record.contains(name)) return name;
    }
  \<close>
  \<open>ss\<close> is the content of the string stream when an iteration starts; the stream is created
  before the loop and each iteration appends to it. \<open>keys\<close> are the keys of the map. The
  result is the name and the counter as the loop leaves it. Every iteration makes the
  stream longer, and a name in the map cannot be longer than all the keys, so the loop
  ends.
\<close>

function next_name_loop ::
  "string \<Rightarrow> string \<Rightarrow> string list \<Rightarrow> string \<Rightarrow> int \<Rightarrow> string \<times> int" where
  "next_name_loop prefix hint keys ss counter =
     (let name = ss @ hint @ prefix @ string_of_int counter
      in if name \<notin> set keys then (name, counter + 1)
         else next_name_loop prefix hint keys name (counter + 1))"
  by pat_completeness auto
termination
proof (relation "measure (\<lambda>(prefix, hint, keys, ss, counter).
                   length (filter (\<lambda>k. length ss < length k) keys))")
  show "wf (measure (\<lambda>(prefix, hint, keys, ss, counter).
              length (filter (\<lambda>k. length ss < length k) keys)))"
    by simp
next
  fix prefix hint :: string and keys :: "string list" and ss :: string
    and counter :: int and name
  assume name: "name = ss @ hint @ prefix @ string_of_int counter"
    and mem: "\<not> name \<notin> set keys"
  have nonempty: "string_of_nat n \<noteq> []" for n
    by (subst string_of_nat.simps) simp
  have "string_of_int counter \<noteq> []"
    by (simp add: string_of_int_def nonempty)
  then have longer: "length ss < length name"
    by (simp add: name)
  let ?Q = "\<lambda>k. length ss < length k"
  let ?P = "\<lambda>k. length name < length k"
  have "name \<in> set (filter ?Q keys)"
    using mem longer by simp
  moreover have "\<not> ?P name" by simp
  ultimately have "length (filter ?P (filter ?Q keys)) < length (filter ?Q keys)"
    by (rule length_filter_less)
  moreover have "filter ?P (filter ?Q keys) = filter ?P keys"
    using longer by (auto intro: filter_cong)
  ultimately show "((prefix, hint, keys, name, counter + 1), (prefix, hint, keys, ss, counter))
      \<in> measure (\<lambda>(prefix, hint, keys, ss, counter).
            length (filter (\<lambda>k. length ss < length k) keys))"
    by simp
qed

declare next_name_loop.simps [simp del]

text \<open>
  The generator that \<^verbatim>\<open>next_name(prefix, counter)\<close> returns, applied to the map \<open>rcd\<close>
  and the hint. The counter is captured by reference: the model takes its value and
  returns the new one with the name.
\<close>

definition next_name :: "string \<Rightarrow> int \<Rightarrow> (string \<times> 'r) list \<Rightarrow> string \<Rightarrow> string \<times> int" where
  "next_name prefix counter rcd hint =
     (if hint \<notin> set (map fst rcd) then (hint, counter)
      else next_name_loop prefix hint (map fst rcd) [] counter)"


section \<open>The typed registry: resource_manager::proxy\<close>

subsection \<open>The map\<close>

text \<open>
  \<^verbatim>\<open>std::unordered_map<std::string, Resrc>\<close> is a list of pairs with distinct keys, in
  the order in which the map is iterated. Where a new pair lands in that order is not
  specified by the container: every function that can add a pair takes the position
  \<open>pos\<close> as a parameter. Erasing a pair keeps the order of the others. The container
  may also reorder the pairs it holds when it adds one (it rehashes); the model keeps
  their order. The properties below are about the keys and what they map to, and about
  the first pair of the map whichever it is; none is about where a pair stands.
\<close>

type_synonym 'r umap = "(string \<times> 'r) list"

definition um_contains :: "'r umap \<Rightarrow> string \<Rightarrow> bool" where
  "um_contains m k \<longleftrightarrow> k \<in> set (map fst m)"

definition um_erase :: "'r umap \<Rightarrow> string \<Rightarrow> 'r umap" where
  "um_erase m k = filter (\<lambda>e. fst e \<noteq> k) m"

definition um_put :: "nat \<Rightarrow> 'r umap \<Rightarrow> string \<Rightarrow> 'r \<Rightarrow> 'r umap" where
  "um_put pos m k v = take pos m @ [(k, v)] @ drop pos m"

text \<open>\<^verbatim>\<open>m[k] = v\<close>: the value of an existing key is replaced, a new key is added.\<close>

definition um_assign :: "nat \<Rightarrow> 'r umap \<Rightarrow> string \<Rightarrow> 'r \<Rightarrow> 'r umap" where
  "um_assign pos m k v =
     (if um_contains m k then map (\<lambda>e. if fst e = k then (k, v) else e) m
      else um_put pos m k v)"

subsection \<open>Exceptions\<close>

text \<open>
  \<^verbatim>\<open>LOG.exception(msg)\<close> (log.hpp) prints the message and executes \<^verbatim>\<open>throw 42\<close>;
  \<^verbatim>\<open>std::unordered_map::at\<close> throws \<^verbatim>\<open>std::out_of_range\<close> for a missing key. The three
  failures of the registry are the three messages it passes to \<^verbatim>\<open>LOG.exception\<close>.
\<close>

datatype exn = Thrown_42 string | Std_out_of_range

abbreviation NotFound :: "string \<Rightarrow> exn" where
  "NotFound name \<equiv> Thrown_42 (''No such resource: '' @ name)"

abbreviation IndexOutOfRange :: exn where
  "IndexOutOfRange \<equiv> Thrown_42 ''Index out of range''"

abbreviation Empty :: exn where
  "Empty \<equiv> Thrown_42 ''No resources''"

subsection \<open>What the proxy needs of its resource class\<close>

text \<open>
  The proxy is a template over \<^verbatim>\<open>Resrc\<close>. It move-constructs resources, lets the map
  destroy them, and in \<^verbatim>\<open>record\<close> clears \<^verbatim>\<open>m_owning\<close> of a class that has this member.
\<close>

record 'r resrc_ops =
  move_construct :: "'r \<Rightarrow> 'r \<times> 'r"
  destroy :: "'r \<Rightarrow> gl_trace \<Rightarrow> gl_trace"
  clear_owning :: "'r \<Rightarrow> 'r"

definition buffer_ops :: "buffer resrc_ops" where
  "buffer_ops = \<lparr>move_construct = buffer_move, destroy = buffer_destroy,
                 clear_owning = (\<lambda>b. b\<lparr>m_owning_buffer := False\<rparr>)\<rparr>"

definition vertex_array_ops :: "vertex_array resrc_ops" where
  "vertex_array_ops = \<lparr>move_construct = vertex_array_move, destroy = vertex_array_destroy,
                       clear_owning = (\<lambda>v. v\<lparr>m_owning_vao := False\<rparr>)\<rparr>"


definition texture_ops :: "texture resrc_ops" where
  "texture_ops = \<lparr>move_construct = (\<lambda>t. (t, t)), destroy = (\<lambda>t tr. tr),
                  clear_owning = (\<lambda>t. t)\<rparr>"

subsection \<open>The proxy\<close>

text \<open>
  \<^verbatim>\<open>m_next_name\<close> calls the generator of the resource's kind, which holds the kind's
  prefix and a reference to the kind's global counter: the model keeps both with the
  proxy (there is one proxy for each kind).
\<close>

record 'r proxy =
  m_record :: "'r umap"
  m_recently_used :: string
  prefix :: string
  counter :: int

text \<open>A proxy over an empty map; \<^verbatim>\<open>m_recently_used\<close> is default-constructed.\<close>

definition proxy_new :: "string \<Rightarrow> int \<Rightarrow> 'r proxy" where
  "proxy_new pfx ct = \<lparr>m_record = [], m_recently_used = [], prefix = pfx, counter = ct\<rparr>"

definition contains :: "'r proxy \<Rightarrow> string \<Rightarrow> bool" where
  "contains p name \<longleftrightarrow> um_contains (m_record p) name"

text \<open>
  \<^verbatim>\<open>Resrc& operator [](std::string name)\<close>. The result is the resource and the proxy
  with its cache updated.
\<close>

definition subscript_name :: "'r proxy \<Rightarrow> string \<Rightarrow> exn + 'r \<times> 'r proxy" where
  "subscript_name p name =
     (if \<not> um_contains (m_record p) name then Inl (NotFound name)
      else case map_of (m_record p) name of
             None \<Rightarrow> Inl Std_out_of_range
           | Some result \<Rightarrow> Inr (result, p\<lparr>m_recently_used := name\<rparr>))"

text \<open>
  \<^verbatim>\<open>Resrc& operator [](gl::u32 idx)\<close> is not modelled: its body applies \<^verbatim>\<open>*\<close> to
  the result of \<^verbatim>\<open>std::advance\<close>, which returns nothing, so no program that calls it
  compiles.
\<close>

text \<open>
  \<^verbatim>\<open>void record(Resrc& object, std::string& name)\<close>:
  \<^verbatim>\<open>
    name = m_next_name(name);
    m_record.insert({ name, std::move(object) });
    if constexpr (requires { object.m_owning; }) { object.m_owning = 0; }
    m_recently_used = name;
  \<close>
  The braces build a temporary pair, into which \<open>object\<close> is moved; \<^verbatim>\<open>insert\<close> moves
  the pair into the map when the key is new, and the temporary is destroyed. When the key
  is there already, \<^verbatim>\<open>insert\<close> adds nothing and the resource moved out of \<open>object\<close> is
  destroyed. The result is the adopted name, \<open>object\<close> afterwards, the proxy and the trace.
\<close>

definition proxy_record ::
  "'r resrc_ops \<Rightarrow> nat \<Rightarrow> 'r \<Rightarrow> string \<Rightarrow> 'r proxy \<Rightarrow> gl_trace
     \<Rightarrow> string \<times> 'r \<times> 'r proxy \<times> gl_trace" where
  "proxy_record K pos object name p tr =
     (let (name', ct') = next_name (prefix p) (counter p) (m_record p) name;
          (temp, object1) = move_construct K object;
          (rcd', tr') =
            (if um_contains (m_record p) name' then (m_record p, destroy K temp tr)
             else let (node, temp1) = move_construct K temp
                  in (um_put pos (m_record p) name' node, destroy K temp1 tr));
          object2 = clear_owning K object1
      in (name', object2,
          p\<lparr>m_record := rcd', m_recently_used := name', counter := ct'\<rparr>, tr'))"

text \<open>
  \<^verbatim>\<open>void emplace(std::string& name, Args&&... args)\<close>:
  \<^verbatim>\<open>
    auto resrc = Resrc(std::forward<Args>(args)...);
    this->record(resrc, name);
    m_recently_used = name;
  \<close>
  \<open>resrc\<close> is the resource as its constructor made it; the local object is destroyed when
  the function returns. The result is the adopted name, the proxy and the trace.
\<close>

definition emplace ::
  "'r resrc_ops \<Rightarrow> nat \<Rightarrow> string \<Rightarrow> 'r \<Rightarrow> 'r proxy \<Rightarrow> gl_trace \<Rightarrow> string \<times> 'r proxy \<times> gl_trace" where
  "emplace K pos name resrc p tr =
     (let (name', resrc', p', tr') = proxy_record K pos resrc name p tr
      in (name', p'\<lparr>m_recently_used := name'\<rparr>, destroy K resrc' tr'))"

text \<open>\<^verbatim>\<open>Resrc& recent()\<close>\<close>

definition recent :: "'r proxy \<Rightarrow> exn + 'r \<times> 'r proxy" where
  "recent p =
     (if m_recently_used p = []
      then (case m_record p of
              [] \<Rightarrow> Inl Empty
            | (name, resrc) # _ \<Rightarrow> Inr (resrc, p\<lparr>m_recently_used := name\<rparr>))
      else (case map_of (m_record p) (m_recently_used p) of
              None \<Rightarrow> Inl Std_out_of_range
            | Some resrc \<Rightarrow> Inr (resrc, p)))"

text \<open>\<^verbatim>\<open>void remove(std::string const& name)\<close>: erasing destroys the resource.\<close>

definition remove :: "'r resrc_ops \<Rightarrow> string \<Rightarrow> 'r proxy \<Rightarrow> gl_trace \<Rightarrow> 'r proxy \<times> gl_trace" where
  "remove K name p tr =
     (let tr' = (case map_of (m_record p) name of None \<Rightarrow> tr | Some r \<Rightarrow> destroy K r tr);
          p1 = p\<lparr>m_record := um_erase (m_record p) name\<rparr>
      in (if m_recently_used p1 = name then p1\<lparr>m_recently_used := []\<rparr> else p1, tr'))"

text \<open>
  \<^verbatim>\<open>bool rename(std::string const& old_name, std::string const& new_name)\<close>:
  \<^verbatim>\<open>
    if (!m_record.contains(old_name)) { return false; }
    m_record[new_name] = m_record[old_name];
    m_record.erase(old_name);
    if (m_recently_used == old_name) { m_recently_used = new_name; }
    return true;
  \<close>
  The assignment copies the resource, so the function exists for a resource class with a
  copy assignment (\<^verbatim>\<open>texture\<close>), where a copy is the same value and destroying one
  does nothing. \<^verbatim>\<open>m_record[new_name]\<close> adds a default-constructed resource for a new key,
  which the assignment overwrites. The lookup of \<open>old_name\<close> finds nothing exactly when
  the map does not contain it.
\<close>

definition rename :: "nat \<Rightarrow> string \<Rightarrow> string \<Rightarrow> 'r proxy \<Rightarrow> bool \<times> 'r proxy" where
  "rename pos old_name new_name p =
     (case map_of (m_record p) old_name of
        None \<Rightarrow> (False, p)
      | Some r \<Rightarrow>
          let rcd1 = um_assign pos (m_record p) new_name r;
              rcd2 = um_erase rcd1 old_name;
              p1 = p\<lparr>m_record := rcd2\<rparr>
          in (True, if m_recently_used p1 = old_name
                    then p1\<lparr>m_recently_used := new_name\<rparr> else p1))"

text \<open>
  \<^verbatim>\<open>Resrc retrieve(std::string const& name)\<close>:
  \<^verbatim>\<open>
    if (!m_record.contains(name)) { LOG.exception("No such resource: " + name); }
    auto resrc = std::move(m_record[name]);
    m_record.erase(name);
    if (m_recently_used == name) { m_recently_used = ""; }
    return resrc;
  \<close>
  The lookup of \<open>name\<close> finds nothing exactly when the map does not contain it. The
  local \<open>resrc\<close> is the returned object. Erasing destroys the resource that was moved
  from.
\<close>

definition retrieve ::
  "'r resrc_ops \<Rightarrow> string \<Rightarrow> 'r proxy \<Rightarrow> gl_trace \<Rightarrow> exn + 'r \<times> 'r proxy \<times> gl_trace" where
  "retrieve K name p tr =
     (case map_of (m_record p) name of
        None \<Rightarrow> Inl (NotFound name)
      | Some r \<Rightarrow>
          let (resrc, r') = move_construct K r;
              tr' = destroy K r' tr;
              p1 = p\<lparr>m_record := um_erase (m_record p) name\<rparr>
          in Inr (resrc, if m_recently_used p1 = name then p1\<lparr>m_recently_used := []\<rparr> else p1,
                  tr'))"


subsection \<open>Runs of the registry\<close>

text \<open>
  The cache \<^verbatim>\<open>m_recently_used\<close> is empty or names a key of the map.
\<close>

definition cache_valid :: "'r proxy \<Rightarrow> bool" where
  "cache_valid p \<longleftrightarrow> m_recently_used p = [] \<or> um_contains (m_record p) (m_recently_used p)"

text \<open>
  A call of \<^verbatim>\<open>emplace\<close>, \<^verbatim>\<open>record\<close> or \<^verbatim>\<open>remove\<close> with its arguments (and the
  position the map gives a new pair), and a sequence of such calls on a proxy.
\<close>

datatype 'r reg_op = Emplace nat string 'r | Record nat 'r string | Remove string

fun apply_op ::
  "'r resrc_ops \<Rightarrow> 'r reg_op \<Rightarrow> 'r proxy \<times> gl_trace \<Rightarrow> 'r proxy \<times> gl_trace" where
  "apply_op K (Emplace pos name resrc) (p, tr) = snd (emplace K pos name resrc p tr)"
| "apply_op K (Record pos object name) (p, tr) = snd (snd (proxy_record K pos object name p tr))"
| "apply_op K (Remove name) (p, tr) = remove K name p tr"

definition run_ops ::
  "'r resrc_ops \<Rightarrow> 'r reg_op list \<Rightarrow> 'r proxy \<times> gl_trace \<Rightarrow> 'r proxy \<times> gl_trace" where
  "run_ops K ops s = foldl (\<lambda>s op. apply_op K op s) s ops"


section \<open>Moves of the handle wrappers\<close>

lemma buffer_move_transfers:
  "buffer_move other = (other, other\<lparr>m_owning_buffer := False\<rparr>)"
  by (simp add: buffer_move_def)

lemma buffer_move_assign_transfers:
  "m_object_buffer this \<noteq> m_object_buffer other \<Longrightarrow>
   buffer_move_assign this other tr = (this', other', tr') \<Longrightarrow>
     m_object_buffer this' = m_object_buffer other \<and>
     m_owning_buffer this' = m_owning_buffer other \<and> \<not> m_owning_buffer other' \<and>
     tr' = (if m_owning_buffer this then tr @ [Delete_buffer (m_object_buffer this)] else tr)"
  by (auto simp: buffer_move_assign_def delete_buffer_def Let_def)

lemma buffer_move_assign_same_object:
  "m_object_buffer this = m_object_buffer other \<Longrightarrow>
   buffer_move_assign this other tr = (this, other, tr)"
  by (simp add: buffer_move_assign_def)

lemma buffer_destroy_not_owning:
  "\<not> m_owning_buffer this \<Longrightarrow>
     buffer_destroy this tr = tr \<and> buffer_clear this tr = (this, tr)"
  by (simp add: buffer_destroy_def buffer_clear_def)

lemma vertex_array_move_transfers:
  "vertex_array_move other = (other, other\<lparr>m_owning_vao := False\<rparr>)"
  by (simp add: vertex_array_move_def)

lemma vertex_array_move_assign_transfers:
  "m_object_vao this \<noteq> m_object_vao other \<Longrightarrow>
   vertex_array_move_assign this other tr = (this', other', tr') \<Longrightarrow>
     m_object_vao this' = m_object_vao other \<and>
     m_owning_vao this' = m_owning_vao other \<and> \<not> m_owning_vao other' \<and>
     tr' = (if m_owning_vao this then tr @ [Delete_vertex_array (m_object_vao this)] else tr)"
  by (auto simp: vertex_array_move_assign_def delete_vertex_array_def Let_def)

lemma vertex_array_move_assign_same_object:
  "m_object_vao this = m_object_vao other \<Longrightarrow>
   vertex_array_move_assign this other tr = (this, other, tr)"
  by (simp add: vertex_array_move_assign_def)

lemma vertex_array_destroy_not_owning:
  "\<not> m_owning_vao this \<Longrightarrow>
     vertex_array_destroy this tr = tr \<and> vertex_array_clear this tr = (this, tr)"
  by (simp add: vertex_array_destroy_def vertex_array_clear_def)

lemma shader_move_transfers:
  "shader_move other = (other, other\<lparr>m_owning_shader := False\<rparr>)"
  by (simp add: shader_move_def)

lemma shader_destroy_not_owning:
  "\<not> m_owning_shader this \<Longrightarrow>
     shader_destroy this tr = tr \<and> snd (shader_clear this tr) = tr"
  by (simp add: shader_destroy_def shader_clear_def)

text \<open>
  The move assignment of \<^verbatim>\<open>shader\<close> leaves \<^verbatim>\<open>m_owning\<close> of its destination as it was,
  whatever the source held.
\<close>

lemma shader_move_assign_keeps_owning:
  "m_owning_shader (fst (shader_move_assign this other tr)) = m_owning_shader this"
  by (simp add: shader_move_assign_def Let_def)

text \<open>
  Claim C1 says that every move of a buffer, vertex_array or shader hands the handle and
  the owning flag to the destination and leaves the source non-owning, so that no handle
  ever has two owning wrappers. The move assignment of \<^verbatim>\<open>shader\<close> does not: it never
  assigns \<^verbatim>\<open>m_owning\<close> of the destination, and it deletes the destination's program
  whenever that is nonzero, owned or not.
  First input: the destination wraps program 3 without owning it, the source owns
  program 7. After the assignment neither wrapper owns program 7, and program 3 has been
  deleted.
  Second input: the destination is default-constructed (program 0, owning), the source
  wraps program 7 without owning it, and a third wrapper owns program 7. After the
  assignment the destination owns program 7 as well, and destroying the destination and
  the owner deletes program 7 twice.
\<close>

theorem shader_move_assign_drops_ownership:
  "shader_move_assign (fst (shader_wrap drv 3 1 1 1 False []))
                      (fst (shader_wrap drv 7 1 1 1 True [])) []
     = (\<lparr>m_vertex_shader_path = None, m_fragment_shader_path = None, m_program = 7,
         m_uniform_model = 1, m_uniform_view = 1, m_uniform_projection = 1,
         m_owning_shader = False\<rparr>,
        \<lparr>m_vertex_shader_path = None, m_fragment_shader_path = None, m_program = 7,
         m_uniform_model = 1, m_uniform_view = 1, m_uniform_projection = 1,
         m_owning_shader = False\<rparr>,
        [Delete_program 3])
   \<and> shader_move_assign shader_default (fst (shader_wrap drv 7 1 1 1 False [])) []
     = (\<lparr>m_vertex_shader_path = None, m_fragment_shader_path = None, m_program = 7,
         m_uniform_model = 1, m_uniform_view = 1, m_uniform_projection = 1,
         m_owning_shader = True\<rparr>,
        \<lparr>m_vertex_shader_path = None, m_fragment_shader_path = None, m_program = 7,
         m_uniform_model = 1, m_uniform_view = 1, m_uniform_projection = 1,
         m_owning_shader = False\<rparr>,
        [])
   \<and> m_owning_shader (fst (shader_wrap drv 7 1 1 1 True []))
   \<and> shader_destroy (fst (shader_wrap drv 7 1 1 1 True []))
         (shader_destroy
            (fst (shader_move_assign shader_default (fst (shader_wrap drv 7 1 1 1 False [])) []))
            [])
     = [Delete_program 7, Delete_program 7]"
  by (simp add: shader_move_assign_def shader_wrap_def shader_default_def delete_program_def
      shader_destroy_def)


section \<open>Wrapping the zero handle\<close>

lemma buffer_wrap_zero:
  "buffer_wrap drv 0 type owning tr =
     (\<lparr>m_object_buffer = drv tr, m_type = (type \<noteq> 0), m_owning_buffer = True\<rparr>,
      tr @ [Generate_buffer])"
  by (simp add: buffer_wrap_def generate_buffer_def)

lemma vertex_array_wrap_zero:
  "vertex_array_wrap drv 0 owning tr =
     (\<lparr>m_object_vao = drv tr, m_owning_vao = True\<rparr>, tr @ [Generate_vertex_array])"
  by (simp add: vertex_array_wrap_def generate_vertex_array_def)

text \<open>
  Claim C3 says that a wrapper constructed around the zero handle allocates a fresh handle
  and is owning whatever the caller passes for \<open>owning\<close>. \<^verbatim>\<open>buffer\<close> and
  \<^verbatim>\<open>vertex_array\<close> do so (the two lemmas above). \<^verbatim>\<open>shader\<close> does not: for program 0
  and \<open>owning = false\<close> it creates a program, the first call it makes, and wraps it with
  \<^verbatim>\<open>m_owning\<close> false, whatever the three uniform arguments are.
\<close>

theorem shader_wrap_zero_not_owning:
  "m_program (fst (shader_wrap drv 0 um uv up False tr)) = drv tr \<and>
   m_owning_shader (fst (shader_wrap drv 0 um uv up False tr)) = False \<and>
   snd (shader_wrap drv 0 um uv up False tr) ! length tr = Create_program"
  by (simp add: shader_wrap_def create_program_def get_uniform_location_def Let_def split_def
      nth_append)


section \<open>The type of a buffer\<close>

text \<open>
  Claim C9: the type a buffer is constructed with is stored in a \<^verbatim>\<open>bool\<close>. Two buffers
  made by either constructor from nonzero types hold the same \<^verbatim>\<open>m_type\<close>;
  \<^verbatim>\<open>bind()\<close> binds them to the target 1, which is not the type they were constructed
  with unless that was 1.
\<close>

theorem buffer_type_is_bool:
  assumes "t1 \<noteq> 0" and "t2 \<noteq> 0"
  shows "m_type (fst (buffer_wrap drv1 o1 t1 own1 tr1))
           = m_type (fst (buffer_wrap drv2 o2 t2 own2 tr2)) \<and>
         m_type (fst (buffer_new drv1 t1 tr1)) = m_type (fst (buffer_new drv2 t2 tr2)) \<and>
         m_type (fst (buffer_wrap drv1 o1 t1 own1 tr1)) = m_type (fst (buffer_new drv2 t2 tr2)) \<and>
         buffer_bind (fst (buffer_wrap drv1 o1 t1 own1 tr1)) tr
           = tr @ [Bind_buffer 1 (m_object_buffer (fst (buffer_wrap drv1 o1 t1 own1 tr1)))] \<and>
         buffer_bind (fst (buffer_new drv1 t1 tr1)) tr
           = tr @ [Bind_buffer 1 (m_object_buffer (fst (buffer_new drv1 t1 tr1)))] \<and>
         (t1 \<noteq> 1 \<longrightarrow> buffer_target (fst (buffer_wrap drv1 o1 t1 own1 tr1)) \<noteq> t1 \<and>
                      buffer_target (fst (buffer_new drv1 t1 tr1)) \<noteq> t1)"
  using assms
  by (simp add: buffer_wrap_def buffer_new_def generate_buffer_def buffer_bind_def
      bind_buffer_def buffer_target_def split_def Let_def)

theorem buffer_type_is_bool_witness:
  "GL_ARRAY_BUFFER \<noteq> 0 \<and> GL_ELEMENT_ARRAY_BUFFER \<noteq> 0 \<and> GL_ARRAY_BUFFER \<noteq> 1 \<and>
   GL_ARRAY_BUFFER \<noteq> GL_ELEMENT_ARRAY_BUFFER \<and>
   m_type (fst (buffer_wrap (\<lambda>tr. 5) 0 GL_ARRAY_BUFFER True []))
     = m_type (fst (buffer_wrap (\<lambda>tr. 6) 0 GL_ELEMENT_ARRAY_BUFFER True [])) \<and>
   buffer_bind (fst (buffer_wrap (\<lambda>tr. 5) 0 GL_ARRAY_BUFFER True [])) [] = [Bind_buffer 1 5] \<and>
   buffer_target (fst (buffer_wrap (\<lambda>tr. 5) 0 GL_ARRAY_BUFFER True [])) \<noteq> GL_ARRAY_BUFFER"
proof -
  have h1: "GL_ARRAY_BUFFER \<noteq> 0" and h2: "GL_ELEMENT_ARRAY_BUFFER \<noteq> 0"
    and h3: "GL_ARRAY_BUFFER \<noteq> 1" and h4: "GL_ARRAY_BUFFER \<noteq> GL_ELEMENT_ARRAY_BUFFER"
    by (simp_all add: GL_ARRAY_BUFFER_def GL_ELEMENT_ARRAY_BUFFER_def)
  have obj: "m_object_buffer (fst (buffer_wrap (\<lambda>tr. 5) 0 GL_ARRAY_BUFFER True [])) = 5"
    by (simp add: buffer_wrap_zero)
  show ?thesis
    using h1 h2 h3 h4 obj
      buffer_type_is_bool [OF h1 h2, of "\<lambda>tr. 5" 0 True "[]" "\<lambda>tr. 6" 0 True "[]" "[]"]
    by simp
qed


section \<open>The name generator: what it returns\<close>

lemma next_name_loop_fresh:
  "fst (next_name_loop pfx hint keys ss ct) \<notin> set keys"
proof (induction pfx hint keys ss ct rule: next_name_loop.induct)
  case (1 pfx hint keys ss ct)
  show ?case
  proof (cases "ss @ hint @ pfx @ string_of_int ct \<in> set keys")
    case True
    with "1.IH" [OF refl] show ?thesis
      by (subst next_name_loop.simps) (simp add: Let_def)
  next
    case False
    then show ?thesis
      by (subst next_name_loop.simps) (simp add: Let_def)
  qed
qed

text \<open>The generator always returns, and its name is not a key of the map.\<close>

lemma next_name_fresh: "fst (next_name pfx ct rcd hint) \<notin> set (map fst rcd)"
  unfolding next_name_def using next_name_loop_fresh [of pfx hint "map fst rcd" "[]" ct]
  by (simp del: set_map)

text \<open>A hint that is not a key is returned as it is, and the counter stays.\<close>

lemma next_name_hint:
  "hint \<notin> set (map fst rcd) \<Longrightarrow> next_name pfx ct rcd hint = (hint, ct)"
  by (simp add: next_name_def)

text \<open>The first candidate for a hint that is a key is hint, prefix, counter.\<close>

lemma next_name_first_candidate:
  "hint \<in> set (map fst rcd) \<Longrightarrow> hint @ pfx @ string_of_int ct \<notin> set (map fst rcd) \<Longrightarrow>
     next_name pfx ct rcd hint = (hint @ pfx @ string_of_int ct, ct + 1)"
  by (simp add: next_name_def del: set_map) (subst next_name_loop.simps, simp add: Let_def)

lemma next_name_loop_counter: "ct < snd (next_name_loop pfx hint keys ss ct)"
proof (induction pfx hint keys ss ct rule: next_name_loop.induct)
  case (1 pfx hint keys ss ct)
  show ?case
  proof (cases "ss @ hint @ pfx @ string_of_int ct \<in> set keys")
    case True
    with "1.IH" [OF refl] show ?thesis
      by (subst next_name_loop.simps) (simp add: Let_def)
  next
    case False
    then show ?thesis
      by (subst next_name_loop.simps) (simp add: Let_def)
  qed
qed

text \<open>The counter never goes back, and a generated name takes at least one value of it.\<close>

lemma next_name_counter:
  "ct \<le> snd (next_name pfx ct rcd hint) \<and>
   (hint \<in> set (map fst rcd) \<longrightarrow> ct < snd (next_name pfx ct rcd hint))"
  using next_name_loop_counter [of ct pfx hint "map fst rcd" "[]"]
  by (simp add: next_name_def del: set_map)

text \<open>
  The decimal rendering of a counter consists of digits, and different counters are
  rendered differently.
\<close>

lemma digit_char_distinct: "distinct (map digit_char [0..<10])"
  by code_simp

lemma digit_char_inj:
  assumes "m < 10" and "n < 10" and "digit_char m = digit_char n"
  shows "m = n"
proof -
  have "inj_on digit_char (set [0..<10])"
    using digit_char_distinct by (simp only: distinct_map)
  then show ?thesis
    using assms by (auto dest: inj_onD)
qed

lemma digit_char_digit: "n < 10 \<Longrightarrow> digit_char n \<in> set ''0123456789''"
  unfolding digit_char_def by (rule nth_mem) simp

lemma string_of_nat_nonempty: "string_of_nat n \<noteq> []"
  by (subst string_of_nat.simps) simp

lemma string_of_nat_digits: "set (string_of_nat n) \<subseteq> set ''0123456789''"
proof (induction n rule: string_of_nat.induct)
  case (1 n)
  show ?case
  proof (cases "n < 10")
    case True
    then show ?thesis
      using digit_char_digit [of n] by (subst string_of_nat.simps) simp
  next
    case False
    with "1.IH" digit_char_digit [of "n mod 10"] show ?thesis
      by (subst string_of_nat.simps) simp
  qed
qed

lemma string_of_nat_inj: "string_of_nat m = string_of_nat n \<Longrightarrow> m = n"
proof (induction m arbitrary: n rule: string_of_nat.induct)
  case (1 m)
  note eq = "1.prems"
  have sm: "string_of_nat m = (if m < 10 then [digit_char m]
      else string_of_nat (m div 10) @ [digit_char (m mod 10)])"
    by (subst string_of_nat.simps) simp
  have sn: "string_of_nat n = (if n < 10 then [digit_char n]
      else string_of_nat (n div 10) @ [digit_char (n mod 10)])"
    by (subst string_of_nat.simps) simp
  show ?case
  proof (cases "m < 10")
    case m: True
    show ?thesis
    proof (cases "n < 10")
      case True
      with m eq sm sn show ?thesis by (auto intro: digit_char_inj)
    next
      case False
      with m eq sm sn string_of_nat_nonempty [of "n div 10"] show ?thesis by auto
    qed
  next
    case m: False
    show ?thesis
    proof (cases "n < 10")
      case True
      with m eq sm sn string_of_nat_nonempty [of "m div 10"] show ?thesis by auto
    next
      case False
      with m eq sm sn have "string_of_nat (m div 10) = string_of_nat (n div 10)"
        and d: "digit_char (m mod 10) = digit_char (n mod 10)"
        by auto
      with "1.IH" m have "m div 10 = n div 10" by blast
      moreover have "m mod 10 = n mod 10"
        using d by (auto intro: digit_char_inj)
      ultimately show ?thesis
        by (metis div_mult_mod_eq)
    qed
  qed
qed

text \<open>A generated name ends with the prefix and the last counter value that was used.\<close>

lemma next_name_loop_form:
  "\<exists>w. fst (next_name_loop pfx hint keys ss ct)
         = w @ pfx @ string_of_int (snd (next_name_loop pfx hint keys ss ct) - 1)"
proof (induction pfx hint keys ss ct rule: next_name_loop.induct)
  case (1 pfx hint keys ss ct)
  show ?case
  proof (cases "ss @ hint @ pfx @ string_of_int ct \<in> set keys")
    case True
    with "1.IH" [OF refl] show ?thesis
      by (subst (1 2) next_name_loop.simps) (simp add: Let_def)
  next
    case False
    then have r: "next_name_loop pfx hint keys ss ct
                    = (ss @ hint @ pfx @ string_of_int ct, ct + 1)"
      by (subst next_name_loop.simps) (simp add: Let_def)
    show ?thesis
      unfolding r by (intro exI [of _ "ss @ hint"]) simp
  qed
qed

text \<open>
  Two strings that end with the prefix and digits, for a prefix that ends with a character
  that is not a digit, are equal only if the digits are.
\<close>

lemma trailing_digits:
  assumes "w1 @ pfx @ d1 = w2 @ pfx @ d2"
    and "pfx \<noteq> []" and "last pfx \<notin> D" and "set d1 \<subseteq> D" and "set d2 \<subseteq> D"
  shows "d1 = d2"
proof -
  have tw: "takeWhile (\<lambda>c. c \<in> D) (rev (w @ pfx @ d)) = rev d" if "set d \<subseteq> D" for w d
  proof -
    obtain c cs where r: "rev pfx = c # cs" and c: "c \<notin> D"
      using assms(2,3) by (cases "rev pfx") (auto simp: last_rev [symmetric] simp del: last_rev)
    have "rev (w @ pfx @ d) = rev d @ (c # cs @ rev w)"
      by (simp add: r)
    moreover have "takeWhile (\<lambda>c. c \<in> D) (rev d @ (c # cs @ rev w)) = rev d"
      using that c by (subst takeWhile_append2) auto
    ultimately show ?thesis by simp
  qed
  have "rev d1 = takeWhile (\<lambda>c. c \<in> D) (rev (w1 @ pfx @ d1))"
    using tw [OF assms(4)] by simp
  also have "\<dots> = takeWhile (\<lambda>c. c \<in> D) (rev (w2 @ pfx @ d2))"
    by (simp only: assms(1))
  also have "\<dots> = rev d2"
    using tw [OF assms(5)] by simp
  finally show ?thesis by simp
qed

text \<open>
  No name is generated twice: a call that starts with a counter which an earlier call has
  left (or a later value) generates a name different from the earlier one, whatever the
  two maps hold and whatever the two hints are, for a prefix that ends with a character
  other than a digit, as the seven prefixes of the header do, a counter that started
  at or above 0, and two calls during which the \<^verbatim>\<open>gl::i32\<close> counter does not overflow.
\<close>

lemma next_name_never_repeats:
  assumes pfx: "pfx \<noteq> []" "last pfx \<notin> set ''0123456789''"
    and ct: "0 \<le> ct1"
    and taken: "hint1 \<in> set (map fst rcd1)" "hint2 \<in> set (map fst rcd2)"
    and later: "snd (next_name pfx ct1 rcd1 hint1) \<le> ct2"
    and no_overflow: "snd (next_name pfx ct2 rcd2 hint2) \<le> 2147483647"
  shows "fst (next_name pfx ct1 rcd1 hint1) \<noteq> fst (next_name pfx ct2 rcd2 hint2)"
proof
  let ?r1 = "next_name_loop pfx hint1 (map fst rcd1) [] ct1"
  let ?r2 = "next_name_loop pfx hint2 (map fst rcd2) [] ct2"
  assume "fst (next_name pfx ct1 rcd1 hint1) = fst (next_name pfx ct2 rcd2 hint2)"
  then have eq: "fst ?r1 = fst ?r2"
    using taken by (simp add: next_name_def del: set_map)
  have later': "snd ?r1 \<le> ct2"
    using later taken by (simp add: next_name_def del: set_map)
  have c1: "ct1 < snd ?r1" and c2: "ct2 < snd ?r2"
    by (rule next_name_loop_counter)+
  obtain w1 where w1: "fst ?r1 = w1 @ pfx @ string_of_int (snd ?r1 - 1)"
    using next_name_loop_form by blast
  obtain w2 where w2: "fst ?r2 = w2 @ pfx @ string_of_int (snd ?r2 - 1)"
    using next_name_loop_form by blast
  have n1: "string_of_int (snd ?r1 - 1) = string_of_nat (nat (snd ?r1 - 1))"
    using ct c1 by (simp add: string_of_int_def)
  have n2: "string_of_int (snd ?r2 - 1) = string_of_nat (nat (snd ?r2 - 1))"
    using ct c1 c2 later' by (simp add: string_of_int_def)
  have "string_of_nat (nat (snd ?r1 - 1)) = string_of_nat (nat (snd ?r2 - 1))"
    using eq w1 w2 n1 n2 trailing_digits [OF _ pfx string_of_nat_digits string_of_nat_digits]
    by metis
  then have "nat (snd ?r1 - 1) = nat (snd ?r2 - 1)"
    by (rule string_of_nat_inj)
  with ct c1 c2 later' show False by simp
qed

text \<open>
  Claim C4 says that for a hint that is taken every candidate is hint, prefix, counter,
  with the counter incremented at each try. The source creates the string stream before
  the loop and never empties it, so the second candidate is the first one followed by
  hint, prefix and the next counter. Input: the map holds \<open>x\<close> and \<open>xgenerated-bo-0\<close>,
  the hint is \<open>x\<close>, the buffer counter is 0. The first candidate \<open>xgenerated-bo-0\<close> is
  taken; the name returned is \<open>xgenerated-bo-0xgenerated-bo-1\<close>, not the free name
  \<open>xgenerated-bo-1\<close> that the claim describes.
\<close>

theorem next_name_second_candidate:
  "next_name ''generated-bo-'' 0 [(''x'', a), (''xgenerated-bo-0'', b)] ''x''
     = (''xgenerated-bo-0xgenerated-bo-1'', 2) \<and>
   ''x'' @ ''generated-bo-'' @ string_of_int 1 = ''xgenerated-bo-1'' \<and>
   ''xgenerated-bo-1'' \<notin> set (map fst [(''x'', a), (''xgenerated-bo-0'', b)])"
  by (simp add: next_name_def next_name_loop.simps string_of_int_def string_of_nat.simps
      digit_char_def)

text \<open>
  The registry of buffers reaches such a map by three calls of \<^verbatim>\<open>emplace\<close>, with the
  hints \<open>xgenerated-bo-0\<close>, \<open>x\<close> and \<open>x\<close>: the third call finds both keys and the
  counter at 0.
\<close>

lemma emplace_three_hints:
  "(let (n1, p1, tr1) = emplace buffer_ops 0 ''xgenerated-bo-0''
                          \<lparr>m_object_buffer = 1, m_type = True, m_owning_buffer = True\<rparr>
                          (proxy_new ''generated-bo-'' 0) [];
        (n2, p2, tr2) = emplace buffer_ops 0 ''x''
                          \<lparr>m_object_buffer = 2, m_type = True, m_owning_buffer = True\<rparr> p1 tr1;
        (n3, p3, tr3) = emplace buffer_ops 0 ''x''
                          \<lparr>m_object_buffer = 3, m_type = True, m_owning_buffer = True\<rparr> p2 tr2
    in (n1, n2, n3, map fst (m_record p2), counter p2, counter p3))
   = (''xgenerated-bo-0'', ''x'', ''xgenerated-bo-0xgenerated-bo-1'',
      [''x'', ''xgenerated-bo-0''], 0, 2)"
  by (simp add: emplace_def proxy_record_def next_name_def next_name_loop.simps
      string_of_int_def string_of_nat.simps digit_char_def proxy_new_def um_contains_def
      um_put_def buffer_ops_def buffer_move_def buffer_destroy_def buffer_clear_def Let_def)


section \<open>The map: lookups after an update\<close>

lemma set_um_put: "set (um_put pos m k v) = insert (k, v) (set m)"
proof -
  have "set m = set (take pos m) \<union> set (drop pos m)"
    by (metis append_take_drop_id set_append)
  then show ?thesis by (auto simp: um_put_def)
qed

lemma um_contains_put: "um_contains (um_put pos m k v) k' \<longleftrightarrow> k' = k \<or> um_contains m k'"
  by (auto simp: um_contains_def set_um_put)

lemma um_contains_erase: "um_contains (um_erase m k) k' \<longleftrightarrow> k' \<noteq> k \<and> um_contains m k'"
  by (auto simp: um_contains_def um_erase_def)

lemma um_contains_map_of: "um_contains m k \<longleftrightarrow> map_of m k \<noteq> None"
  by (simp add: um_contains_def map_of_eq_None_iff)

lemma map_of_um_erase: "map_of (um_erase m k) k' = (if k' = k then None else map_of m k')"
  by (induction m) (auto simp: um_erase_def)

lemma map_of_um_put:
  assumes fresh: "\<not> um_contains m k"
  shows "map_of (um_put pos m k v) k' = (if k' = k then Some v else map_of m k')"
proof -
  have m: "map_of m k' = (map_of (drop pos m) ++ map_of (take pos m)) k'"
    by (metis append_take_drop_id map_of_append)
  have "k \<notin> fst ` set (take pos m)"
    using fresh by (auto simp: um_contains_def dest: in_set_takeD)
  then have "map_of (take pos m) k = None"
    by (simp add: map_of_eq_None_iff)
  then show ?thesis
    using m by (auto simp: um_put_def map_add_def split: option.splits)
qed

lemma map_of_um_assign_same: "map_of (um_assign pos m k v) k = Some v"
proof (cases "um_contains m k")
  case True
  have "k \<in> fst ` set xs \<Longrightarrow> map_of (map (\<lambda>e. if fst e = k then (k, v) else e) xs) k = Some v"
    for xs :: "(string \<times> 'a) list"
    by (induction xs) auto
  with True show ?thesis by (simp add: um_assign_def um_contains_def)
next
  case False
  then show ?thesis by (simp add: um_assign_def map_of_um_put)
qed


section \<open>The recently-used cache\<close>

text \<open>What \<^verbatim>\<open>record\<close> returns, given the name that the generator adopts.\<close>

lemma proxy_record_result:
  assumes "next_name (prefix p) (counter p) (m_record p) name = (name', ct')"
  shows "proxy_record K pos object name p tr =
           (name', clear_owning K (snd (move_construct K object)),
            p\<lparr>m_record := um_put pos (m_record p) name'
                 (fst (move_construct K (fst (move_construct K object)))),
              m_recently_used := name', counter := ct'\<rparr>,
            destroy K (snd (move_construct K (fst (move_construct K object)))) tr)"
proof -
  have "\<not> um_contains (m_record p) name'"
    using next_name_fresh [of "prefix p" "counter p" "m_record p" name] assms
    by (simp add: um_contains_def)
  then show ?thesis
    by (simp add: proxy_record_def assms split_def Let_def)
qed

lemma cache_valid_record: "cache_valid (fst (snd (snd (proxy_record K pos object name p tr))))"
proof -
  obtain name' ct' where nn: "next_name (prefix p) (counter p) (m_record p) name = (name', ct')"
    by (cases "next_name (prefix p) (counter p) (m_record p) name")
  show ?thesis
    by (simp add: proxy_record_result [OF nn] cache_valid_def um_contains_put)
qed

lemma cache_valid_emplace: "cache_valid (fst (snd (emplace K pos name resrc p tr)))"
proof -
  obtain name' ct' where nn: "next_name (prefix p) (counter p) (m_record p) name = (name', ct')"
    by (cases "next_name (prefix p) (counter p) (m_record p) name")
  show ?thesis
    by (simp add: emplace_def proxy_record_result [OF nn] cache_valid_def um_contains_put)
qed

lemma cache_valid_remove: "cache_valid p \<Longrightarrow> cache_valid (fst (remove K name p tr))"
  by (auto simp: remove_def cache_valid_def um_contains_erase Let_def)

lemma cache_valid_apply_op: "cache_valid (fst s) \<Longrightarrow> cache_valid (fst (apply_op K op s))"
  by (cases op; cases s)
     (simp_all add: cache_valid_record cache_valid_emplace cache_valid_remove)

lemma cache_valid_run_ops: "cache_valid (fst s) \<Longrightarrow> cache_valid (fst (run_ops K ops s))"
  unfolding run_ops_def
  by (induction ops arbitrary: s) (simp_all add: cache_valid_apply_op)

text \<open>
  Claim C2: after any sequence of \<^verbatim>\<open>emplace\<close>, \<^verbatim>\<open>record\<close> and \<^verbatim>\<open>remove\<close> calls on a
  proxy that starts with an empty map, for any resource class, any counter and any
  positions of the new pairs, a cache that is not the empty string names a key of the map.
\<close>

theorem recently_used_is_a_key:
  "m_recently_used (fst (run_ops K ops (proxy_new pfx ct, tr))) \<noteq> [] \<longrightarrow>
   m_recently_used (fst (run_ops K ops (proxy_new pfx ct, tr)))
     \<in> fst ` set (m_record (fst (run_ops K ops (proxy_new pfx ct, tr))))"
proof -
  have "cache_valid (fst (proxy_new pfx ct :: 'a proxy, tr))"
    by (simp add: cache_valid_def proxy_new_def)
  then have "cache_valid (fst (run_ops K ops (proxy_new pfx ct, tr)))"
    by (rule cache_valid_run_ops)
  then show ?thesis
    by (auto simp: cache_valid_def um_contains_def)
qed

theorem recently_used_is_a_key_witness:
  "m_recently_used (fst (run_ops buffer_ops
      [Emplace 0 ''vbo'' \<lparr>m_object_buffer = 5, m_type = True, m_owning_buffer = True\<rparr>,
       Record 0 \<lparr>m_object_buffer = 9, m_type = True, m_owning_buffer = True\<rparr> ''vbo'',
       Remove ''vbo'']
      (proxy_new ''generated-bo-'' 0, []))) = ''vbogenerated-bo-0'' \<and>
   ''vbogenerated-bo-0'' \<in> fst ` set (m_record (fst (run_ops buffer_ops
      [Emplace 0 ''vbo'' \<lparr>m_object_buffer = 5, m_type = True, m_owning_buffer = True\<rparr>,
       Record 0 \<lparr>m_object_buffer = 9, m_type = True, m_owning_buffer = True\<rparr> ''vbo'',
       Remove ''vbo'']
      (proxy_new ''generated-bo-'' 0, []))))"
proof -
  let ?ops = "[Emplace 0 ''vbo'' \<lparr>m_object_buffer = 5, m_type = True, m_owning_buffer = True\<rparr>,
       Record 0 \<lparr>m_object_buffer = 9, m_type = True, m_owning_buffer = True\<rparr> ''vbo'',
       Remove ''vbo'']"
  have cache: "m_recently_used (fst (run_ops buffer_ops ?ops (proxy_new ''generated-bo-'' 0, [])))
                 = ''vbogenerated-bo-0''"
    by (simp add: run_ops_def emplace_def proxy_record_def remove_def next_name_def
        next_name_loop.simps string_of_int_def string_of_nat.simps digit_char_def
        proxy_new_def buffer_ops_def buffer_move_def buffer_destroy_def buffer_clear_def
        delete_buffer_def um_contains_def um_put_def um_erase_def Let_def)
  show ?thesis
    using cache
      recently_used_is_a_key [of buffer_ops ?ops "''generated-bo-''" 0 "[]"]
    by simp
qed


section \<open>Taking a resource out of the registry\<close>

lemma retrieve_present:
  assumes "map_of (m_record p) name = Some r"
  shows "retrieve K name p tr =
           Inr (fst (move_construct K r),
                (if m_recently_used p = name
                 then p\<lparr>m_record := um_erase (m_record p) name, m_recently_used := []\<rparr>
                 else p\<lparr>m_record := um_erase (m_record p) name\<rparr>),
                destroy K (snd (move_construct K r)) tr)"
  by (simp add: retrieve_def assms split_def Let_def)


lemma contains_after_retrieve:
  "map_of (m_record p) name = Some r \<Longrightarrow>
     \<not> contains (fst (snd (projr (retrieve K name p tr)))) name"
  by (simp add: retrieve_present contains_def um_contains_erase)










section \<open>Renaming\<close>

lemma rename_absent: "\<not> contains p old_name \<Longrightarrow> rename pos old_name new_name p = (False, p)"
  by (simp add: rename_def contains_def um_contains_map_of)

text \<open>
  For a name that is present and a different new name, the resource moves to the new
  name (replacing what was there), the old name is gone, and the cache follows.
\<close>

lemma rename_present:
  assumes "map_of (m_record p) old_name = Some r" and "new_name \<noteq> old_name"
  shows "\<exists>p'. rename pos old_name new_name p = (True, p') \<and>
           subscript_name p' old_name = Inl (NotFound old_name) \<and>
           subscript_name p' new_name = Inr (r, p'\<lparr>m_recently_used := new_name\<rparr>) \<and>
           m_recently_used p' =
             (if m_recently_used p = old_name then new_name else m_recently_used p)"
  using assms
  by (simp add: rename_def Let_def subscript_name_def um_contains_map_of map_of_um_erase
      map_of_um_assign_same)

text \<open>
  Claim C6 says that after renaming a name that is present the entry is accessible under
  the new name. Renaming a name to itself is not: the assignment
  \<^verbatim>\<open>m_record[new_name] = m_record[old_name]\<close> assigns the entry to itself and
  \<^verbatim>\<open>m_record.erase(old_name)\<close> then erases it. Input: a registry of textures that holds
  one texture, emplaced as \<open>a\<close>; \<^verbatim>\<open>rename("a", "a")\<close> returns true and leaves the map
  empty, with the cache still naming \<open>a\<close>; the lookup of \<open>a\<close> then throws.
\<close>

theorem rename_to_same_name_erases:
  "rename 0 ''a'' ''a''
     (fst (snd (emplace texture_ops 0 ''a'' texture_default
        (proxy_new ''generated-texture-'' 0) [])))
   = (True, \<lparr>m_record = [], m_recently_used = ''a'', prefix = ''generated-texture-'',
             counter = 0\<rparr>)
   \<and> subscript_name
       (snd (rename 0 ''a'' ''a''
          (fst (snd (emplace texture_ops 0 ''a'' texture_default
             (proxy_new ''generated-texture-'' 0) [])))))
       ''a''
     = Inl (NotFound ''a'')"
  by (simp add: rename_def emplace_def proxy_record_def next_name_def proxy_new_def
      texture_ops_def um_contains_def um_put_def um_assign_def um_erase_def subscript_name_def
      Let_def)


section \<open>Lookups that fail\<close>

lemma subscript_name_missing:
  "\<not> contains p name \<Longrightarrow> subscript_name p name = Inl (NotFound name)"
  by (simp add: subscript_name_def contains_def)

text \<open>
  With a cache that is empty or names a key, \<^verbatim>\<open>recent()\<close> on an empty map throws the
  exception of an empty registry.
\<close>

lemma recent_empty:
  "m_record p = [] \<Longrightarrow> cache_valid p \<Longrightarrow> recent p = Inl Empty"
  by (simp add: recent_def cache_valid_def um_contains_def)

text \<open>
  Claim C7 says that \<^verbatim>\<open>recent()\<close> on a registry without entries fails as empty. The
  function tests the map for emptiness only when the cache is the empty string;
  otherwise it calls \<^verbatim>\<open>m_record.at(m_recently_used)\<close>. Input: the registry of textures
  after \<^verbatim>\<open>emplace("a")\<close> and \<^verbatim>\<open>rename("a", "a")\<close>: the map is empty, the cache names
  \<open>a\<close>, and \<^verbatim>\<open>recent()\<close> throws \<^verbatim>\<open>std::out_of_range\<close>, not the exception of an empty
  registry.
\<close>

theorem recent_after_rename_to_same_name:
  "m_record (snd (rename 0 ''a'' ''a''
      (fst (snd (emplace texture_ops 0 ''a'' texture_default
         (proxy_new ''generated-texture-'' 0) []))))) = []
   \<and> recent (snd (rename 0 ''a'' ''a''
      (fst (snd (emplace texture_ops 0 ''a'' texture_default
         (proxy_new ''generated-texture-'' 0) [])))))
     = Inl Std_out_of_range
   \<and> Std_out_of_range \<noteq> Empty"
  by (simp add: rename_def emplace_def proxy_record_def next_name_def proxy_new_def
      texture_ops_def um_contains_def um_put_def um_assign_def um_erase_def recent_def
      Let_def)


section \<open>The empty string as a name\<close>

text \<open>
  On a registry without entries, \<^verbatim>\<open>record\<close> with the empty string as hint makes the
  new resource the only entry of the map, wherever the map puts it, and \<^verbatim>\<open>recent()\<close>
  returns it.
\<close>

lemma record_empty_hint_on_empty_registry:
  assumes "m_record p = []" and "proxy_record K pos v [] p tr = (n, v', p', tr')"
  shows "m_record p' = [([], fst (move_construct K (fst (move_construct K v))))] \<and>
         recent p' = Inr (fst (move_construct K (fst (move_construct K v))), p')"
proof -
  have nn: "next_name (prefix p) (counter p) (m_record p) [] = ([], counter p)"
    using assms(1) by (simp add: next_name_hint)
  note res = assms(2) [unfolded proxy_record_result [OF nn]]
  from res have p': "p' = p\<lparr>m_record := um_put pos (m_record p) []
                               (fst (move_construct K (fst (move_construct K v)))),
                            m_recently_used := [], counter := counter p\<rparr>"
    by auto
  show ?thesis
    by (simp add: p' assms(1) um_put_def recent_def)
qed

text \<open>
  Claim C10 says that after \<^verbatim>\<open>record\<close> with the empty string as hint \<^verbatim>\<open>recent()\<close> does
  not return the entry with the empty name. It does when that entry is the first of the
  map. Input: an empty registry of buffers; buffer 9 is recorded with the empty hint. The
  entry with the empty name is buffer 9 (the lookup by name returns it), and
  \<^verbatim>\<open>recent()\<close> returns buffer 9.
\<close>

theorem recent_returns_empty_named_entry:
  "proxy_record buffer_ops 0 \<lparr>m_object_buffer = 9, m_type = True, m_owning_buffer = True\<rparr> []
       (proxy_new ''generated-bo-'' 0) []
     = ([], \<lparr>m_object_buffer = 9, m_type = True, m_owning_buffer = False\<rparr>,
        \<lparr>m_record = [([], \<lparr>m_object_buffer = 9, m_type = True, m_owning_buffer = True\<rparr>)],
         m_recently_used = [], prefix = ''generated-bo-'', counter = 0\<rparr>, []) \<and>
   subscript_name
       \<lparr>m_record = [([], \<lparr>m_object_buffer = 9, m_type = True, m_owning_buffer = True\<rparr>)],
        m_recently_used = [], prefix = ''generated-bo-'', counter = 0\<rparr> []
     = Inr (\<lparr>m_object_buffer = 9, m_type = True, m_owning_buffer = True\<rparr>,
            \<lparr>m_record = [([], \<lparr>m_object_buffer = 9, m_type = True, m_owning_buffer = True\<rparr>)],
             m_recently_used = [], prefix = ''generated-bo-'', counter = 0\<rparr>) \<and>
   recent
       \<lparr>m_record = [([], \<lparr>m_object_buffer = 9, m_type = True, m_owning_buffer = True\<rparr>)],
        m_recently_used = [], prefix = ''generated-bo-'', counter = 0\<rparr>
     = Inr (\<lparr>m_object_buffer = 9, m_type = True, m_owning_buffer = True\<rparr>,
            \<lparr>m_record = [([], \<lparr>m_object_buffer = 9, m_type = True, m_owning_buffer = True\<rparr>)],
             m_recently_used = [], prefix = ''generated-bo-'', counter = 0\<rparr>)"
  by (simp add: proxy_record_def next_name_def proxy_new_def buffer_ops_def buffer_move_def
      buffer_destroy_def buffer_clear_def um_contains_def um_put_def subscript_name_def
      recent_def)

text \<open>
  Claim C10 as the code has it: \<^verbatim>\<open>record\<close> with the empty string as hint, on a registry
  that has no entry of that name, stores the resource under the empty name and sets the
  cache to the empty string. \<^verbatim>\<open>recent()\<close> reads that cache as "nothing used yet": it
  returns the first entry of the map, whichever that is, and caches its name. On a
  registry that held no entry, the first entry is the one with the empty name.
\<close>

theorem record_empty_hint_then_recent:
  assumes "\<not> contains p []" and "proxy_record K pos v [] p tr = (n, v', p', tr')"
  shows "n = [] \<and>
         map_of (m_record p') [] = Some (fst (move_construct K (fst (move_construct K v)))) \<and>
         m_recently_used p' = [] \<and>
         set (m_record p')
           = insert ([], fst (move_construct K (fst (move_construct K v)))) (set (m_record p)) \<and>
         length (m_record p') = Suc (length (m_record p)) \<and>
         p'\<lparr>m_record := m_record p, m_recently_used := m_recently_used p\<rparr> = p \<and>
         (\<exists>name resrc rest. m_record p' = (name, resrc) # rest \<and>
            recent p' = Inr (resrc, p'\<lparr>m_recently_used := name\<rparr>) \<and>
            (m_record p = [] \<longrightarrow>
               name = [] \<and> resrc = fst (move_construct K (fst (move_construct K v)))))"
proof -
  have nn: "next_name (prefix p) (counter p) (m_record p) [] = ([], counter p)"
    using assms(1) by (simp add: next_name_hint contains_def um_contains_def)
  have fresh: "\<not> um_contains (m_record p) []"
    using assms(1) by (simp add: contains_def)
  note res = assms(2) [unfolded proxy_record_result [OF nn]]
  from res have n: "n = []" and cache: "m_recently_used p' = []"
    and rcd: "m_record p' = um_put pos (m_record p) []
                 (fst (move_construct K (fst (move_construct K v))))"
    and rest: "p'\<lparr>m_record := m_record p, m_recently_used := m_recently_used p\<rparr> = p"
    by auto
  have stored: "map_of (m_record p') []
                  = Some (fst (move_construct K (fst (move_construct K v))))"
    by (simp add: rcd map_of_um_put [OF fresh])
  have pairs: "set (m_record p')
      = insert ([], fst (move_construct K (fst (move_construct K v)))) (set (m_record p))"
    by (simp add: rcd set_um_put)
  have len: "length (m_record p') = Suc (length (m_record p))"
    by (auto simp: rcd um_put_def)
  have "m_record p' \<noteq> []"
    using stored by auto
  then obtain name resrc rest where first: "m_record p' = (name, resrc) # rest"
    by (cases "m_record p'") auto
  then have rec: "recent p' = Inr (resrc, p'\<lparr>m_recently_used := name\<rparr>)"
    by (simp add: recent_def cache)
  have only: "name = [] \<and> resrc = fst (move_construct K (fst (move_construct K v)))"
    if empty: "m_record p = []"
    using first rcd by (simp add: um_put_def empty)
  from n cache stored pairs len rest first rec only show ?thesis by blast
qed

text \<open>
  An instance: an empty registry of vertex arrays; vertex array 4 is recorded with the
  empty hint. \<^verbatim>\<open>recent()\<close> returns it, by its first-entry branch.
\<close>

theorem record_empty_hint_then_recent_witness:
  "\<not> contains (proxy_new ''generated-vao-'' 0 :: vertex_array proxy) [] \<and>
   m_record (proxy_new ''generated-vao-'' 0 :: vertex_array proxy) = [] \<and>
   proxy_record vertex_array_ops 0 \<lparr>m_object_vao = 4, m_owning_vao = True\<rparr> []
       (proxy_new ''generated-vao-'' 0) []
     = ([], \<lparr>m_object_vao = 4, m_owning_vao = False\<rparr>,
        \<lparr>m_record = [([], \<lparr>m_object_vao = 4, m_owning_vao = True\<rparr>)],
         m_recently_used = [], prefix = ''generated-vao-'', counter = 0\<rparr>, []) \<and>
   recent \<lparr>m_record = [([], \<lparr>m_object_vao = 4, m_owning_vao = True\<rparr>)],
           m_recently_used = [], prefix = ''generated-vao-'', counter = 0\<rparr>
     = Inr (\<lparr>m_object_vao = 4, m_owning_vao = True\<rparr>,
            \<lparr>m_record = [([], \<lparr>m_object_vao = 4, m_owning_vao = True\<rparr>)],
             m_recently_used = [], prefix = ''generated-vao-'', counter = 0\<rparr>)"
proof -
  let ?v = "\<lparr>m_object_vao = 4, m_owning_vao = True\<rparr>"
  let ?p = "proxy_new ''generated-vao-'' 0 :: vertex_array proxy"
  let ?p' = "\<lparr>m_record = [([], ?v)], m_recently_used = [],
             prefix = ''generated-vao-'', counter = 0\<rparr>"
  have h1: "\<not> contains ?p []"
    by (simp add: contains_def um_contains_def proxy_new_def)
  have h0: "m_record ?p = []"
    by (simp add: proxy_new_def)
  have h2: "proxy_record vertex_array_ops 0 ?v [] ?p []
              = ([], ?v\<lparr>m_owning_vao := False\<rparr>, ?p', [])"
    by (simp add: proxy_record_def next_name_def proxy_new_def vertex_array_ops_def
        vertex_array_move_def vertex_array_destroy_def vertex_array_clear_def
        um_contains_def um_put_def)
  from record_empty_hint_then_recent [OF h1 h2] h0
  have "recent ?p' = Inr (?v, ?p')"
    by (auto simp: vertex_array_ops_def vertex_array_move_def)
  with h1 h0 h2 show ?thesis
    by simp
qed

end
